theory Spec2Isabelle
  imports Main "HOL-Library.Char_ord" "HOL-Library.List_Lexorder" "HOL-Library.Product_Lexorder"
    "HOL-Library.Multiset"
begin

section \<open>Cells, records and tables\<close>

text \<open>
  A cell of a pandas DataFrame: a missing value (\<open>NaN\<close>, \<open>None\<close>, \<open>NaT\<close>), a string, a
  number or a timestamp (the column \<open>TestDate\<close> as the query returns it; only its calendar
  date is rendered by \<open>strftime('%Y-%m-%d')\<close>). Scores and ids are modelled as integers.
\<close>

record timestamp =
  year :: nat
  month :: nat
  day :: nat
  hour :: nat
  minute :: nat
  second :: nat

datatype cell = NaN | Str string | Num int | Time timestamp

text \<open>
  One row of the flat DataFrame that \<open>get_student_responses\<close> returns: the sixteen columns
  of its SELECT list. A cell that may be null is an \<open>option\<close>; \<open>QuestionID\<close> is the integer
  key of the result row.
\<close>

record flat_record =
  TestDate :: "timestamp option"
  SchoolId :: "int option"
  SchoolName :: "string option"
  StudentId :: "string option"
  FirstName :: "string option"
  LastName :: "string option"
  Gender :: "string option"
  Grade :: "int option"
  Region :: "string option"
  QuestionID :: int
  QuestionType :: "string option"
  Subject :: "string option"
  Level :: "string option"
  StudentAnswer :: "string option"
  CorrectAnswer :: "string option"
  Score :: "int option"

text \<open>
  A DataFrame with named columns: the column index and the rows, each row holding its cells
  by column name in column order.
\<close>

type_synonym row = "(string \<times> cell) list"

record table =
  columns :: "string list"
  rows :: "row list"

definition empty_frame :: table where
  "empty_frame = \<lparr>columns = [], rows = []\<rparr>"

definition df_empty :: "table \<Rightarrow> bool" where
  "df_empty df = (columns df = [] \<or> rows df = [])"

definition str_cell :: "string option \<Rightarrow> cell" where
  "str_cell v = (case v of None \<Rightarrow> NaN | Some s \<Rightarrow> Str s)"

definition num_cell :: "int option \<Rightarrow> cell" where
  "num_cell v = (case v of None \<Rightarrow> NaN | Some n \<Rightarrow> Num n)"

section \<open>Formatting\<close>

definition digit_char :: "nat \<Rightarrow> char" where
  "digit_char d = ''0123456789'' ! d"

fun str_nat :: "nat \<Rightarrow> string" where
  "str_nat n = (if n < 10 then [digit_char n] else str_nat (n div 10) @ [digit_char (n mod 10)])"

declare str_nat.simps [simp del]

definition str_int :: "int \<Rightarrow> string" where
  "str_int i = (if i < 0 then CHR ''-'' # str_nat (nat (- i)) else str_nat (nat i))"

definition pad2 :: "nat \<Rightarrow> string" where
  "pad2 n = (if n < 10 then CHR ''0'' # str_nat n else str_nat n)"

text \<open>\<open>strftime('%Y-%m-%d')\<close>; the years of a pandas timestamp have four digits.\<close>

definition strftime_ymd :: "timestamp \<Rightarrow> string" where
  "strftime_ymd t = str_nat (year t) @ ''-'' @ pad2 (month t) @ ''-'' @ pad2 (day t)"

definition endswith :: "string \<Rightarrow> string \<Rightarrow> bool" where
  "endswith s suf = (length suf \<le> length s \<and> drop (length s - length suf) s = suf)"

section \<open>The service constants\<close>

definition STUDENT_COLUMNS :: "string list" where
  "STUDENT_COLUMNS = [''TestDate'', ''SchoolId'', ''SchoolName'', ''StudentId'', ''FirstName'',
     ''LastName'', ''Gender'', ''Grade'', ''Region'']"

definition QUESTION_COLUMNS :: "string list" where
  "QUESTION_COLUMNS = [''QuestionId'', ''Subject'', ''Level'', ''Type'', ''StudentAnswer'',
     ''CorrectAnswer'', ''Score'']"

section \<open>DataFrame operations\<close>

text \<open>Reading a row by column name; a column the row does not have reads as missing.\<close>

definition cell_of :: "('c \<times> cell) list \<Rightarrow> 'c \<Rightarrow> cell" where
  "cell_of r c = (case map_of r c of None \<Rightarrow> NaN | Some v \<Rightarrow> v)"

text \<open>
  \<open>Series.unique\<close> and \<open>drop_duplicates(subset=[k])\<close> keep the first occurrence of every
  key, in order of appearance; equal missing keys count as duplicates of each other.
\<close>

fun first_seen :: "'k list \<Rightarrow> ('a \<Rightarrow> 'k) \<Rightarrow> 'a list \<Rightarrow> 'a list" where
  "first_seen seen key [] = []"
| "first_seen seen key (x # xs) =
     (if key x \<in> set seen then first_seen seen key xs
      else x # first_seen (key x # seen) key xs)"

definition unique :: "'a list \<Rightarrow> 'a list" where
  "unique xs = first_seen [] (\<lambda>x. x) xs"

definition drop_duplicates :: "string \<Rightarrow> table \<Rightarrow> table" where
  "drop_duplicates key_col df = df\<lparr>rows := first_seen [] (\<lambda>r. cell_of r key_col) (rows df)\<rparr>"

text \<open>\<open>GroupBy.first\<close>: the first entry of the group that is not missing.\<close>

definition first_valid :: "cell list \<Rightarrow> cell" where
  "first_valid cs = (case filter (\<lambda>c. c \<noteq> NaN) cs of [] \<Rightarrow> NaN | c # _ \<Rightarrow> c)"

text \<open>
  \<open>left.merge(right, on=key, how='left')\<close>: every left row in order, once per right row with
  the same key, or once with missing cells when no right row has its key. The other column
  names of the two frames are disjoint here, so no suffix is added.
\<close>

definition merge_left :: "table \<Rightarrow> table \<Rightarrow> string \<Rightarrow> table" where
  "merge_left left right on =
     \<lparr>columns = columns left @ filter (\<lambda>c. c \<noteq> on) (columns right),
      rows = concat (map (\<lambda>l.
               case filter (\<lambda>r. cell_of r on = cell_of l on) (rows right) of
                 [] \<Rightarrow> [l @ map (\<lambda>c. (c, NaN)) (filter (\<lambda>c. c \<noteq> on) (columns right))]
               | ms \<Rightarrow> map (\<lambda>r. l @ filter (\<lambda>(c, v). c \<noteq> on) r) ms) (rows left))\<rparr>"

text \<open>\<open>df[cols]\<close> for column names that the frame has.\<close>

definition select_columns :: "string list \<Rightarrow> table \<Rightarrow> table" where
  "select_columns cols df =
     \<lparr>columns = cols, rows = map (\<lambda>r. map (\<lambda>c. (c, cell_of r c)) cols) (rows df)\<rparr>"

section \<open>pivot_student_data\<close>

definition student_cols :: "string list" where
  "student_cols = [''StudentId'', ''FirstName'', ''LastName'', ''Gender'', ''Grade'',
     ''SchoolId'', ''SchoolName'', ''Region'', ''TestDate'']"

definition time_cell :: "timestamp option \<Rightarrow> cell" where
  "time_cell v = (case v of None \<Rightarrow> NaN | Some t \<Rightarrow> Time t)"

text \<open>\<open>df[student_cols]\<close>\<close>

definition student_row :: "flat_record \<Rightarrow> row" where
  "student_row r =
     [(''StudentId'', str_cell (StudentId r)), (''FirstName'', str_cell (FirstName r)),
      (''LastName'', str_cell (LastName r)), (''Gender'', str_cell (Gender r)),
      (''Grade'', num_cell (Grade r)), (''SchoolId'', num_cell (SchoolId r)),
      (''SchoolName'', str_cell (SchoolName r)), (''Region'', str_cell (Region r)),
      (''TestDate'', time_cell (TestDate r))]"

text \<open>
  \<open>pd.to_datetime(col).dt.strftime('%Y-%m-%d')\<close> on a column of timestamps and nulls; a null
  stays null.
\<close>

definition format_date :: "cell \<Rightarrow> cell" where
  "format_date c = (case c of Time t \<Rightarrow> Str (strftime_ymd t) | _ \<Rightarrow> c)"

definition format_TestDate :: "table \<Rightarrow> table" where
  "format_TestDate df =
     (if ''TestDate'' \<in> set (columns df)
      then df\<lparr>rows := map (map (\<lambda>(c, v). (c, if c = ''TestDate'' then format_date v else v)))
                          (rows df)\<rparr>
      else df)"

definition all_question_ids :: "flat_record list \<Rightarrow> int list" where
  "all_question_ids df = sort (unique (map QuestionID df))"

text \<open>\<open>{q_id: idx for idx, q_id in enumerate(all_question_ids, 1)}\<close>\<close>

definition q_id_to_num :: "int list \<Rightarrow> int \<rightharpoonup> nat" where
  "q_id_to_num ids = map_of (zip ids [1 ..< Suc (length ids)])"

definition pivot_cols :: "(string \<times> string) list" where
  "pivot_cols = [(''QuestionID'', ''QuestionId''), (''Subject'', ''Subject''), (''Level'', ''Level''),
     (''QuestionType'', ''Type''), (''StudentAnswer'', ''StudentAnswer''),
     (''CorrectAnswer'', ''CorrectAnswer''), (''Score'', ''Score'')]"

text \<open>The cell of a flat row in one of the value columns of the pivot.\<close>

definition value_cell :: "string \<Rightarrow> flat_record \<Rightarrow> cell" where
  "value_cell v r =
     (if v = ''QuestionID'' then Num (QuestionID r)
      else if v = ''Subject'' then str_cell (Subject r)
      else if v = ''Level'' then str_cell (Level r)
      else if v = ''QuestionType'' then str_cell (QuestionType r)
      else if v = ''StudentAnswer'' then str_cell (StudentAnswer r)
      else if v = ''CorrectAnswer'' then str_cell (CorrectAnswer r)
      else if v = ''Score'' then num_cell (Score r)
      else NaN)"

text \<open>
  \<open>df.pivot_table(index='StudentId', columns='QNum', values=..., aggfunc='first')\<close>, on the
  rows paired with their \<open>QNum\<close>. The steps of pandas: group by the two keys, leaving out
  the rows with a missing key (\<open>dropna=True\<close>) and sorting the groups; take the first valid
  entry of every value column per group; drop the groups that are missing in every value
  column; unstack \<open>QNum\<close> into the columns \<open>(value, QNum)\<close>, missing where a student has no
  group; sort the columns; drop the columns that are missing in every row.
\<close>

definition group_keys :: "(flat_record \<times> nat option) list \<Rightarrow> (string \<times> nat) list" where
  "group_keys data =
     sort (unique (concat (map (\<lambda>(r, q).
       case StudentId r of None \<Rightarrow> []
       | Some s \<Rightarrow> (case q of None \<Rightarrow> [] | Some n \<Rightarrow> [(s, n)])) data)))"

definition group_rows :: "(flat_record \<times> nat option) list \<Rightarrow> string \<times> nat \<Rightarrow> flat_record list" where
  "group_rows data k =
     map fst (filter (\<lambda>(r, q). StudentId r = Some (fst k) \<and> q = Some (snd k)) data)"

definition agg_first ::
  "(flat_record \<times> nat option) list \<Rightarrow> string list \<Rightarrow> ((string \<times> nat) \<times> row) list" where
  "agg_first data vals =
     map (\<lambda>k. (k, map (\<lambda>v. (v, first_valid (map (value_cell v) (group_rows data k)))) vals))
       (group_keys data)"

definition dropna_rows :: "('k \<times> row) list \<Rightarrow> ('k \<times> row) list" where
  "dropna_rows agged = filter (\<lambda>(k, vs). \<exists>c \<in> set (map snd vs). c \<noteq> NaN) agged"

text \<open>The pivoted frame: its column index and its rows, each under its index label.\<close>

record pivoted_frame =
  pcolumns :: "(string \<times> nat) list"
  prows :: "(string \<times> ((string \<times> nat) \<times> cell) list) list"

definition unstack :: "((string \<times> nat) \<times> row) list \<Rightarrow> string list \<Rightarrow> pivoted_frame" where
  "unstack agged vals =
     (let idx = sort (unique (map (fst \<circ> fst) agged));
          qs = sort (unique (map (snd \<circ> fst) agged));
          cols = sort (concat (map (\<lambda>v. map (\<lambda>q. (v, q)) qs) vals))
      in \<lparr>pcolumns = cols,
          prows = map (\<lambda>s. (s, map (\<lambda>(v, q). ((v, q),
                    case map_of agged (s, q) of None \<Rightarrow> NaN | Some vs \<Rightarrow> cell_of vs v)) cols)) idx\<rparr>)"

definition dropna_columns :: "pivoted_frame \<Rightarrow> pivoted_frame" where
  "dropna_columns t =
     (let keep = filter (\<lambda>c. \<exists>r \<in> set (prows t). cell_of (snd r) c \<noteq> NaN) (pcolumns t)
      in \<lparr>pcolumns = keep,
          prows = map (\<lambda>(s, r). (s, filter (\<lambda>(c, v). c \<in> set keep) r)) (prows t)\<rparr>)"

definition pivot_table :: "(flat_record \<times> nat option) list \<Rightarrow> string list \<Rightarrow> pivoted_frame" where
  "pivot_table data vals = dropna_columns (unstack (dropna_rows (agg_first data vals)) vals)"

text \<open>
  \<open>f"Q{q_num}_{pivot_cols[value_name]}"\<close>; every value name of the pivot is a key of
  \<open>pivot_cols\<close>.
\<close>

definition col_name :: "nat \<Rightarrow> string \<Rightarrow> string" where
  "col_name q_num col = ''Q'' @ str_nat q_num @ ''_'' @ col"

definition new_col_name :: "string \<times> nat \<Rightarrow> string" where
  "new_col_name col =
     col_name (snd col) (case map_of pivot_cols (fst col) of None \<Rightarrow> [] | Some n \<Rightarrow> n)"

text \<open>Renaming the columns and \<open>reset_index()\<close>: the index becomes the column \<open>StudentId\<close>.\<close>

definition flatten_reset :: "pivoted_frame \<Rightarrow> table" where
  "flatten_reset t =
     \<lparr>columns = ''StudentId'' # map new_col_name (pcolumns t),
      rows = map (\<lambda>(s, r). (''StudentId'', Str s) # map (\<lambda>(c, v). (new_col_name c, v)) r)
               (prows t)\<rparr>"

definition final_columns :: "nat \<Rightarrow> table \<Rightarrow> string list" where
  "final_columns n result_df =
     filter (\<lambda>c. c \<in> set (columns result_df))
       (STUDENT_COLUMNS @
        concat (map (\<lambda>idx. filter (\<lambda>col_name. col_name \<in> set (columns result_df))
                              (map (col_name idx) QUESTION_COLUMNS))
                    [1 ..< Suc n]))"

definition fill_value :: "string \<Rightarrow> cell option" where
  "fill_value col =
     (if endswith col ''_StudentAnswer'' then Some (Str ''Not Answered'')
      else if endswith col ''_Score'' then Some (Num 0)
      else if endswith col ''_QuestionId'' \<or> endswith col ''_Subject'' \<or> endswith col ''_Level''
              \<or> endswith col ''_Type'' \<or> endswith col ''_CorrectAnswer'' then Some (Str ''N/A'')
      else None)"

definition fillna :: "string \<Rightarrow> cell \<Rightarrow> cell" where
  "fillna col v = (if v = NaN then (case fill_value col of None \<Rightarrow> NaN | Some d \<Rightarrow> d) else v)"

definition fill_blanks :: "table \<Rightarrow> table" where
  "fill_blanks df = df\<lparr>rows := map (map (\<lambda>(c, v). (c, fillna c v))) (rows df)\<rparr>"

definition pivot_student_data :: "flat_record list \<Rightarrow> table" where
  "pivot_student_data df =
     (if df = [] then empty_frame
      else
        let students_df = format_TestDate (drop_duplicates ''StudentId''
                            \<lparr>columns = student_cols, rows = map student_row df\<rparr>);
            ids = all_question_ids df;
            data = map (\<lambda>r. (r, q_id_to_num ids (QuestionID r))) df;
            pivoted = flatten_reset (pivot_table data (map fst pivot_cols));
            result_df = merge_left students_df pivoted ''StudentId''
        in fill_blanks (select_columns (final_columns (length ids) result_df) result_df))"


section \<open>generate_excel\<close>

text \<open>
  The workbook is modelled by its contents: per sheet the cells assigned by address, the
  grid written by \<open>to_excel\<close> (its start row, header and data rows), the styled header cells,
  the frozen pane and the column widths by column number. The clock is a parameter: \<open>now\<close>
  is \<open>datetime.now().strftime('%Y-%m-%d %H:%M:%S')\<close>. The argument \<open>contest_info\<close> is not used
  by the source.
\<close>

datatype xl = XStr string | XInt int

record sheet =
  sheet_name :: string
  assigned :: "(string \<times> string) list"
  startrow :: nat
  header :: "string list"
  body :: "cell list list"
  styled_header :: "(nat \<times> nat) list"
  freeze_panes :: "(nat \<times> nat) option"
  widths :: "(nat \<times> nat) list"

record summary_sheet =
  metric :: "string list"
  val :: "xl list"

record workbook =
  sheets :: "sheet list"
  summary :: "summary_sheet option"

definition question_count :: "table \<Rightarrow> int" where
  "question_count df = (int (length (columns df)) - int (length STUDENT_COLUMNS)) div 7"

definition nunique :: "cell list \<Rightarrow> nat" where
  "nunique cs = length (remdups (filter (\<lambda>c. c \<noteq> NaN) cs))"

definition column_values :: "table \<Rightarrow> string \<Rightarrow> cell list" where
  "column_values df c = map (\<lambda>r. case map_of r c of None \<Rightarrow> NaN | Some v \<Rightarrow> v) (rows df)"

definition column_width :: "string \<Rightarrow> nat" where
  "column_width col =
     (if col = ''TestDate'' then 12
      else if col = ''SchoolName'' then 25
      else if col \<in> set STUDENT_COLUMNS then 12
      else 10)"

definition empty_workbook :: "int \<Rightarrow> workbook" where
  "empty_workbook contest_id =
     \<lparr>sheets = [\<lparr>sheet_name = ''Sheet'',
                 assigned = [(''A1'', ''Contest ID: '' @ str_int contest_id),
                             (''A2'', ''No data found for the specified filters.'')],
                 startrow = 0, header = [], body = [], styled_header = [],
                 freeze_panes = None, widths = []\<rparr>],
      summary = None\<rparr>"

definition generate_excel :: "string \<Rightarrow> table \<Rightarrow> int \<Rightarrow> 'i option \<Rightarrow> workbook" where
  "generate_excel now df contest_id contest_info =
     (if df_empty df then empty_workbook contest_id
      else
        \<lparr>sheets = [\<lparr>sheet_name = ''Student Responses'',
                    assigned =
                      [(''A1'', ''Contest ID: '' @ str_int contest_id),
                       (''A2'', ''Generated: '' @ now),
                       (''A3'', ''Students: '' @ str_nat (length (rows df)) @ '' | Questions: ''
                                @ str_int (question_count df))],
                    startrow = 3,
                    header = columns df,
                    body = map (map snd) (rows df),
                    styled_header = map (\<lambda>col_idx. (4, col_idx)) [1 ..< Suc (length (columns df))],
                    freeze_panes = Some (5, length STUDENT_COLUMNS + 1),
                    widths = map (\<lambda>(i, col). (i, column_width col))
                               (zip [1 ..< Suc (length (columns df))] (columns df))\<rparr>],
         summary = Some
           \<lparr>metric = [''Contest ID'', ''Total Students'', ''Total Schools'', ''Total Questions'',
                      ''Generated At''],
            val = [XInt contest_id,
                   XInt (int (length (rows df))),
                   XInt (if ''SchoolId'' \<in> set (columns df)
                         then int (nunique (column_values df ''SchoolId'')) else 0),
                   XInt (question_count df),
                   XStr now]\<rparr>\<rparr>)"

section \<open>Notions used in the statements and proofs\<close>

text \<open>The decimal digits, the characters of \<open>str(q_num)\<close>.\<close>

definition is_digit :: "char \<Rightarrow> bool" where
  "is_digit c = (c \<in> set ''0123456789'')"

text \<open>
  The entry of the pivot for student \<open>s\<close> in column \<open>(value, QNum)\<close>: the first valid cell of
  the value column in the group of \<open>s\<close> and \<open>QNum\<close>.
\<close>

definition group_cell :: "(flat_record \<times> nat option) list \<Rightarrow> string \<Rightarrow> string \<times> nat \<Rightarrow> cell" where
  "group_cell data s c = first_valid (map (value_cell (fst c)) (group_rows data (s, snd c)))"

text \<open>The flat rows paired with their \<open>QNum\<close>, as \<open>pivot_student_data\<close> builds them.\<close>

definition numbered :: "flat_record list \<Rightarrow> (flat_record \<times> nat option) list" where
  "numbered df = map (\<lambda>r. (r, q_id_to_num (all_question_ids df) (QuestionID r))) df"

text \<open>
  Some row of the input has data for the value column \<open>v\<close> in slot \<open>k\<close>: a row of a student
  (its \<open>StudentId\<close> is not missing) for the question of slot \<open>k\<close> whose cell in \<open>v\<close> is not
  missing.
\<close>

definition has_data :: "flat_record list \<Rightarrow> nat \<Rightarrow> string \<Rightarrow> bool" where
  "has_data df k v =
     (\<exists>r \<in> set df. StudentId r \<noteq> None \<and> q_id_to_num (all_question_ids df) (QuestionID r) = Some k
        \<and> value_cell v r \<noteq> NaN)"

text \<open>The documented default of a question field.\<close>

definition default_cell :: "string \<Rightarrow> cell" where
  "default_cell f =
     (if f = ''StudentAnswer'' then Str ''Not Answered'' else if f = ''Score'' then Num 0 else Str ''N/A'')"

text \<open>A flat row with every cell present, and the inputs built from it for the examples.\<close>

definition sample :: flat_record where
  "sample = \<lparr>TestDate = Some \<lparr>year = 2024, month = 3, day = 5, hour = 1, minute = 2, second = 3\<rparr>,
     SchoolId = Some 7, SchoolName = Some ''Sch'', StudentId = Some ''A'', FirstName = Some ''f'',
     LastName = Some ''l'', Gender = Some ''F'', Grade = Some 5, Region = Some ''N/A'', QuestionID = 10,
     QuestionType = Some ''MCQ'', Subject = Some ''Math'', Level = Some ''Easy'',
     StudentAnswer = Some ''a'', CorrectAnswer = Some ''b'', Score = Some 1\<rparr>"

text \<open>A table of the nine student columns and three question blocks, with one row.\<close>

definition thirty :: table where
  "thirty = \<lparr>columns = STUDENT_COLUMNS @ concat (map (\<lambda>k. map (col_name k) QUESTION_COLUMNS) [1, 2, 3]),
             rows = [[]]\<rparr>"


section \<open>Properties of the operations\<close>


subsection \<open>first_seen\<close>

lemma set_first_seen_subset: "set (first_seen seen key xs) \<subseteq> set xs"
  by (induction xs arbitrary: seen) auto

lemma keys_first_seen: "key ` set (first_seen seen key xs) = key ` set xs - set seen"
proof (induction xs arbitrary: seen)
  case Nil
  then show ?case by simp
next
  case (Cons x xs)
  show ?case
  proof (cases "key x \<in> set seen")
    case True
    then show ?thesis using Cons.IH [of seen] by auto
  next
    case False
    then show ?thesis using Cons.IH [of "key x # seen"] by auto
  qed
qed

lemma first_seen_notin_seen: "x \<in> set (first_seen seen key xs) \<Longrightarrow> key x \<notin> set seen"
  using keys_first_seen [of key seen xs] by blast

lemma distinct_first_seen: "distinct (map key (first_seen seen key xs))"
proof (induction xs arbitrary: seen)
  case Nil
  then show ?case by simp
next
  case (Cons x xs)
  have "key x \<notin> key ` set (first_seen (key x # seen) key xs)"
    by (simp add: keys_first_seen)
  then show ?case using Cons.IH by simp
qed

lemma length_first_seen: "length (first_seen [] key xs) = card (key ` set xs)"
proof -
  have "length (first_seen [] key xs) = length (map key (first_seen [] key xs))" by simp
  also have "\<dots> = card (set (map key (first_seen [] key xs)))"
    using distinct_card [OF distinct_first_seen [of key "[]" xs]] by simp
  also have "\<dots> = card (key ` set xs)"
    using keys_first_seen [of key "[]" xs] by simp
  finally show ?thesis .
qed

lemma first_seen_map: "first_seen seen key (map f xs) = map f (first_seen seen (key \<circ> f) xs)"
  by (induction xs arbitrary: seen) auto

lemma find_first_seen:
  "k \<notin> set seen \<Longrightarrow> find (\<lambda>x. key x = k) (first_seen seen key xs) = find (\<lambda>x. key x = k) xs"
proof (induction xs arbitrary: seen)
  case Nil
  then show ?case by simp
next
  case (Cons x xs)
  show ?case
  proof (cases "key x \<in> set seen")
    case True
    with Cons show ?thesis by auto
  next
    case False
    with Cons show ?thesis by auto
  qed
qed

lemma set_unique [simp]: "set (unique xs) = set xs"
  using keys_first_seen [of "\<lambda>x. x" "[]" xs] by (simp add: unique_def)

lemma distinct_unique [simp]: "distinct (unique xs)"
  using distinct_first_seen [of "\<lambda>x. x" "[]" xs] by (simp add: unique_def)

lemma sort_unique: "sort (unique xs) = sorted_list_of_set (set xs)"
proof -
  have "sorted_list_of_set (set (unique xs)) = sort (unique xs)"
    by (rule sorted_list_of_set_sort_remdups [where xs = "unique xs", simplified distinct_remdups_id [OF distinct_unique]])
  then show ?thesis by simp
qed

lemma filter_key_distinct:
  "distinct (map key xs) \<Longrightarrow>
   filter (\<lambda>x. key x = k) xs = (case find (\<lambda>x. key x = k) xs of None \<Rightarrow> [] | Some x \<Rightarrow> [x])"
proof (induction xs)
  case Nil
  then show ?case by simp
next
  case (Cons x xs)
  show ?case
  proof (cases "key x = k")
    case True
    from Cons.prems True have "\<forall>y \<in> set xs. key y \<noteq> k"
      by (metis distinct.simps(2) image_eqI list.simps(9) set_map)
    then have "filter (\<lambda>y. key y = k) xs = []"
      by (simp add: filter_empty_conv)
    with True show ?thesis by simp
  next
    case False
    with Cons show ?thesis by simp
  qed
qed

subsection \<open>Strings\<close>

lemma digit_char_cases:
  "d < 10 \<Longrightarrow> d = 0 \<or> d = 1 \<or> d = 2 \<or> d = 3 \<or> d = 4 \<or> d = 5 \<or> d = 6 \<or> d = 7 \<or> d = 8 \<or> d = (9::nat)"
  by arith

lemma is_digit_digit_char: "d < 10 \<Longrightarrow> is_digit (digit_char d)"
  using digit_char_cases [of d] by (auto simp: is_digit_def digit_char_def)

lemma digit_char_inj: "a < 10 \<Longrightarrow> b < 10 \<Longrightarrow> digit_char a = digit_char b \<Longrightarrow> a = b"
  using digit_char_cases [of a] digit_char_cases [of b]
  by (auto simp: digit_char_def)

lemma str_nat_digits: "\<forall>c \<in> set (str_nat n). is_digit c"
proof (induction n rule: str_nat.induct)
  case (1 n)
  show ?case
  proof (cases "n < 10")
    case True
    then show ?thesis by (simp add: str_nat.simps [of n] is_digit_digit_char)
  next
    case False
    then show ?thesis using 1 by (simp add: str_nat.simps [of n] is_digit_digit_char)
  qed
qed

lemma str_nat_nonempty: "str_nat n \<noteq> []"
  by (simp add: str_nat.simps [of n])

lemma str_nat_inj: "str_nat a = str_nat b \<Longrightarrow> a = b"
proof (induction a arbitrary: b rule: str_nat.induct)
  case (1 a)
  show ?case
  proof (cases "a < 10")
    case True
    show ?thesis
    proof (cases "b < 10")
      case b: True
      with True "1.prems" show ?thesis
        by (simp add: str_nat.simps [of a] str_nat.simps [of b] digit_char_inj)
    next
      case b: False
      with True "1.prems" show ?thesis
        using str_nat_nonempty [of "b div 10"]
        by (auto simp: str_nat.simps [of a] str_nat.simps [of b])
    qed
  next
    case False
    show ?thesis
    proof (cases "b < 10")
      case b: True
      with False "1.prems" show ?thesis
        using str_nat_nonempty [of "a div 10"]
        by (auto simp: str_nat.simps [of a] str_nat.simps [of b])
    next
      case b: False
      with False "1.prems" have e: "str_nat (a div 10) = str_nat (b div 10)"
        and d: "digit_char (a mod 10) = digit_char (b mod 10)"
        by (simp_all add: str_nat.simps [of a] str_nat.simps [of b])
      from e False have "a div 10 = b div 10" by (rule "1.IH" [rotated])
      moreover from d have "a mod 10 = b mod 10" by (simp add: digit_char_inj)
      ultimately show ?thesis by (metis div_mult_mod_eq)
    qed
  qed
qed


subsection \<open>Reading association lists\<close>

lemma cell_of_map_key: "cell_of (map (\<lambda>c. (c, g c)) cs) c = (if c \<in> set cs then g c else NaN)"
  by (induction cs) (auto simp: cell_of_def)

lemma cell_of_filter_key: "cell_of (filter (\<lambda>(c, v). P c) r) c = (if P c then cell_of r c else NaN)"
  by (induction r) (auto simp: cell_of_def)

lemma cell_of_append:
  "cell_of (l @ x) c = (if c \<in> fst ` set l then cell_of l c else cell_of x c)"
proof (cases "map_of l c")
  case None
  then have "c \<notin> fst ` set l" by (simp add: map_of_eq_None_iff)
  with None show ?thesis by (simp add: cell_of_def map_add_def split: option.splits)
next
  case (Some v)
  then have "c \<in> fst ` set l" by (metis map_of_eq_None_iff option.distinct(1))
  with Some show ?thesis by (simp add: cell_of_def map_add_def)
qed

lemma cell_of_map_inj:
  assumes "inj_on f (insert c (fst ` set r))"
  shows "cell_of (map (\<lambda>(c, v). (f c, v)) r) (f c) = cell_of r c"
  using assms
proof (induction r)
  case Nil
  then show ?case by (simp add: cell_of_def)
next
  case (Cons a r)
  obtain c' v where a: "a = (c', v)" by (cases a)
  from Cons.prems have inj: "inj_on f (insert c (fst ` set r))"
    by (rule inj_on_subset) auto
  show ?case
  proof (cases "c' = c")
    case True
    with a show ?thesis by (simp add: cell_of_def)
  next
    case False
    with Cons.prems a have "f c' \<noteq> f c" by (auto simp: inj_on_def)
    with a False Cons.IH [OF inj] show ?thesis by (simp add: cell_of_def)
  qed
qed

lemma cell_of_fill: "cell_of (map (\<lambda>(c, v). (c, g c v)) r) c = (if c \<in> fst ` set r then g c (cell_of r c) else NaN)"
  by (induction r) (auto simp: cell_of_def)

lemma first_valid_Nil [simp]: "first_valid [] = NaN"
  by (simp add: first_valid_def)

lemma first_valid_all_NaN: "(\<forall>c \<in> set cs. c = NaN) \<Longrightarrow> first_valid cs = NaN"
  by (induction cs) (auto simp: first_valid_def)

lemma first_valid_in: "first_valid cs \<noteq> NaN \<Longrightarrow> first_valid cs \<in> set cs"
  by (induction cs) (auto simp: first_valid_def split: if_splits)

lemma first_valid_exists: "c \<in> set cs \<Longrightarrow> c \<noteq> NaN \<Longrightarrow> first_valid cs \<noteq> NaN"
  by (induction cs) (auto simp: first_valid_def)

lemma first_valid_Cons: "first_valid (c # cs) = (if c \<noteq> NaN then c else first_valid cs)"
  by (simp add: first_valid_def)

subsection \<open>The groups\<close>

lemma set_group_keys:
  "set (group_keys data) = {(s, n). \<exists>r. (r, Some n) \<in> set data \<and> StudentId r = Some s}"
  by (auto simp: group_keys_def split: option.splits prod.splits)

lemma distinct_group_keys: "distinct (group_keys data)"
  by (simp add: group_keys_def)

lemma group_rows_empty:
  "k \<notin> set (group_keys data) \<Longrightarrow> group_rows data k = []"
  by (cases k) (auto simp: set_group_keys group_rows_def filter_empty_conv)

lemma map_of_dropna_agg:
  "map_of (dropna_rows (agg_first data vals)) k =
     (if k \<in> set (group_keys data) \<and> (\<exists>v \<in> set vals. group_cell data (fst k) (v, snd k) \<noteq> NaN)
      then Some (map (\<lambda>v. (v, group_cell data (fst k) (v, snd k))) vals) else None)"
proof -
  have gen: "map_of (filter (\<lambda>(k, vs). P k) (map (\<lambda>k. (k, f k)) ks)) k
           = (if k \<in> set ks \<and> P k then Some (f k) else None)" for P f and ks :: "(string \<times> nat) list"
    by (induction ks) auto
  have "dropna_rows (agg_first data vals)
      = filter (\<lambda>(k, vs). \<exists>v \<in> set vals. group_cell data (fst k) (v, snd k) \<noteq> NaN)
          (map (\<lambda>k. (k, map (\<lambda>v. (v, group_cell data (fst k) (v, snd k))) vals)) (group_keys data))"
    unfolding dropna_rows_def agg_first_def group_cell_def
    by (simp add: filter_map o_def image_iff cong: filter_cong)
  then show ?thesis by (simp only: gen)
qed

text \<open>The cell that unstack writes for student s under column (v, q).\<close>

lemma unstack_cell:
  assumes "v \<in> set vals"
  shows "(case map_of (dropna_rows (agg_first data vals)) (s, q) of None \<Rightarrow> NaN
          | Some vs \<Rightarrow> cell_of vs v) = group_cell data s (v, q)"
proof (cases "(s, q) \<in> set (group_keys data)")
  case False
  then show ?thesis
    by (simp add: map_of_dropna_agg group_cell_def group_rows_empty)
next
  case True
  show ?thesis
  proof (cases "\<exists>v \<in> set vals. group_cell data s (v, q) \<noteq> NaN")
    case ex: True
    with True assms show ?thesis
      by (simp add: map_of_dropna_agg cell_of_map_key)
  next
    case False
    with assms have "group_cell data s (v, q) = NaN" by blast
    with False True show ?thesis by (simp add: map_of_dropna_agg)
  qed
qed

lemma agged_keys:
  "fst ` set (dropna_rows (agg_first data vals))
     = {k \<in> set (group_keys data). \<exists>v \<in> set vals. group_cell data (fst k) (v, snd k) \<noteq> NaN}"
proof -
  have "fst ` set (dropna_rows (agg_first data vals)) = dom (map_of (dropna_rows (agg_first data vals)))"
    by (simp add: dom_map_of_conv_image_fst)
  also have "\<dots> = {k \<in> set (group_keys data). \<exists>v \<in> set vals. group_cell data (fst k) (v, snd k) \<noteq> NaN}"
    by (auto simp: dom_def map_of_dropna_agg split: if_splits)
  finally show ?thesis .
qed

lemma group_cell_keys:
  "group_cell data s (v, q) \<noteq> NaN \<Longrightarrow> (s, q) \<in> set (group_keys data)"
proof (rule ccontr)
  assume a: "group_cell data s (v, q) \<noteq> NaN" and b: "(s, q) \<notin> set (group_keys data)"
  from b have "group_rows data (s, q) = []" by (rule group_rows_empty)
  with a show False by (simp add: group_cell_def)
qed


subsection \<open>The pivoted frame\<close>

lemma pcolumns_unstack:
  "set (pcolumns (unstack agged vals)) = set vals \<times> (snd ` fst ` set agged)"
proof -
  have "set (concat (map (\<lambda>v. map (\<lambda>q. (v, q)) qs) vals)) = set vals \<times> set qs" for qs :: "nat list"
    by (induction vals) auto
  from this [of "sort (unique (map (snd \<circ> fst) agged))"]
  show ?thesis by (simp add: unstack_def Let_def image_image)
qed

lemma pindex_unstack:
  "map fst (prows (unstack agged vals)) = sort (unique (map (fst \<circ> fst) agged))"
  by (simp add: unstack_def Let_def o_def)

lemma prows_unstack:
  assumes "(s, r) \<in> set (prows (unstack (dropna_rows (agg_first data vals)) vals))"
    and "c \<in> set (pcolumns (unstack (dropna_rows (agg_first data vals)) vals))"
  shows "cell_of r c = group_cell data s c"
proof -
  obtain v q where c: "c = (v, q)" by (cases c)
  from assms(2) c have v: "v \<in> set vals" by (simp add: pcolumns_unstack)
  let ?cols = "pcolumns (unstack (dropna_rows (agg_first data vals)) vals)"
  from assms(1) have "r = map (\<lambda>c. (c, case map_of (dropna_rows (agg_first data vals)) (s, snd c) of
      None \<Rightarrow> NaN | Some vs \<Rightarrow> cell_of vs (fst c))) ?cols"
    by (auto simp: unstack_def Let_def case_prod_beta)
  then have "cell_of r c = (case map_of (dropna_rows (agg_first data vals)) (s, q) of
      None \<Rightarrow> NaN | Some vs \<Rightarrow> cell_of vs v)"
    using assms(2) c by (simp add: cell_of_map_key split: option.split)
  with v c show ?thesis by (simp add: unstack_cell)
qed

lemma pcolumns_pivot_table:
  "set (pcolumns (pivot_table data vals))
     = {(v, q). v \<in> set vals \<and> (\<exists>s. group_cell data s (v, q) \<noteq> NaN)}"
proof -
  let ?a = "dropna_rows (agg_first data vals)"
  let ?u = "unstack ?a vals"
  have keep: "set (pcolumns (pivot_table data vals))
      = {c \<in> set (pcolumns ?u). \<exists>r \<in> set (prows ?u). cell_of (snd r) c \<noteq> NaN}"
    by (simp add: pivot_table_def dropna_columns_def Let_def)
  show ?thesis
  proof (rule set_eqI, clarify)
    fix v q
    show "((v, q) \<in> set (pcolumns (pivot_table data vals)))
        = ((v, q) \<in> {(v, q). v \<in> set vals \<and> (\<exists>s. group_cell data s (v, q) \<noteq> NaN)})"
    proof
      assume "(v, q) \<in> set (pcolumns (pivot_table data vals))"
      with keep obtain r where c: "(v, q) \<in> set (pcolumns ?u)" and r: "r \<in> set (prows ?u)"
        and n: "cell_of (snd r) (v, q) \<noteq> NaN" by auto
      from r c have "cell_of (snd r) (v, q) = group_cell data (fst r) (v, q)"
        using prows_unstack [of "fst r" "snd r" data vals "(v, q)"] by simp
      with n c show "(v, q) \<in> {(v, q). v \<in> set vals \<and> (\<exists>s. group_cell data s (v, q) \<noteq> NaN)}"
        by (auto simp: pcolumns_unstack)
    next
      assume "(v, q) \<in> {(v, q). v \<in> set vals \<and> (\<exists>s. group_cell data s (v, q) \<noteq> NaN)}"
      then obtain s where v: "v \<in> set vals" and n: "group_cell data s (v, q) \<noteq> NaN" by auto
      from n have k: "(s, q) \<in> set (group_keys data)" by (rule group_cell_keys)
      with v n have a: "(s, q) \<in> fst ` set ?a" by (auto simp: agged_keys)
      then have c: "(v, q) \<in> set (pcolumns ?u)"
        using v by (force simp: pcolumns_unstack)
      from a have "s \<in> set (map fst (prows ?u))"
        unfolding pindex_unstack by force
      then obtain r where r: "(s, r) \<in> set (prows ?u)" by auto
      from r c have "cell_of r (v, q) = group_cell data s (v, q)" by (rule prows_unstack)
      with n r c keep show "(v, q) \<in> set (pcolumns (pivot_table data vals))" by force
    qed
  qed
qed

lemma pindex_pivot_table:
  "map fst (prows (pivot_table data vals))
     = sort (unique (map (fst \<circ> fst) (dropna_rows (agg_first data vals))))"
  by (simp add: pivot_table_def dropna_columns_def Let_def case_prod_beta o_def
      pindex_unstack [unfolded o_def])

lemma distinct_pindex: "distinct (map fst (prows (pivot_table data vals)))"
  by (simp add: pindex_pivot_table)

lemma prows_pivot_table:
  assumes "(s, r) \<in> set (prows (pivot_table data vals))"
    and "c \<in> set (pcolumns (pivot_table data vals))"
  shows "cell_of r c = group_cell data s c"
proof -
  let ?u = "unstack (dropna_rows (agg_first data vals)) vals"
  let ?keep = "pcolumns (pivot_table data vals)"
  have k: "?keep = filter (\<lambda>c. \<exists>r \<in> set (prows ?u). cell_of (snd r) c \<noteq> NaN) (pcolumns ?u)"
    by (simp add: pivot_table_def dropna_columns_def Let_def)
  from assms(1) obtain r0 where r0: "(s, r0) \<in> set (prows ?u)"
    and r: "r = filter (\<lambda>(c, v). c \<in> set ?keep) r0"
    unfolding pivot_table_def dropna_columns_def Let_def by auto
  from assms(2) k have "c \<in> set (pcolumns ?u)" by simp
  with r0 have "cell_of r0 c = group_cell data s c" by (rule prows_unstack)
  with r assms(2) show ?thesis by (simp add: cell_of_filter_key)
qed

lemma pivot_table_row_keys:
  assumes "(s, r) \<in> set (prows (pivot_table data vals))"
  shows "map fst r = pcolumns (pivot_table data vals)"
proof -
  let ?u = "unstack (dropna_rows (agg_first data vals)) vals"
  let ?keep = "pcolumns (pivot_table data vals)"
  have k: "?keep = filter (\<lambda>c. \<exists>r \<in> set (prows ?u). cell_of (snd r) c \<noteq> NaN) (pcolumns ?u)"
    by (simp add: pivot_table_def dropna_columns_def Let_def)
  from assms(1) obtain r0 where r0: "(s, r0) \<in> set (prows ?u)"
    and r: "r = filter (\<lambda>(c, v). c \<in> set ?keep) r0"
    unfolding pivot_table_def dropna_columns_def Let_def by auto
  from r0 have "map fst r0 = pcolumns ?u"
    by (auto simp: unstack_def Let_def case_prod_beta o_def)
  moreover have "map fst (filter (\<lambda>(c, v). P c) xs) = filter P (map fst xs)"
    for P and xs :: "((string \<times> nat) \<times> cell) list"
    by (induction xs) auto
  ultimately have "map fst r = filter (\<lambda>c. c \<in> set ?keep) (pcolumns ?u)"
    unfolding r by simp
  also have "\<dots> = ?keep"
    unfolding k by (simp cong: filter_cong)
  finally show ?thesis .
qed

lemma not_in_pindex:
  assumes "s \<notin> fst ` set (prows (pivot_table data vals))" and "v \<in> set vals"
  shows "group_cell data s (v, q) = NaN"
proof (rule ccontr)
  assume n: "group_cell data s (v, q) \<noteq> NaN"
  then have "(s, q) \<in> set (group_keys data)" by (rule group_cell_keys)
  with n assms(2) have "(s, q) \<in> fst ` set (dropna_rows (agg_first data vals))"
    by (auto simp: agged_keys)
  then have "s \<in> set (map fst (prows (pivot_table data vals)))"
    unfolding pindex_pivot_table by force
  with assms(1) show False by simp
qed


subsection \<open>Column names\<close>

lemma digits_prefix_unique:
  assumes "\<forall>c \<in> set xs. is_digit c" and "\<forall>c \<in> set ys. is_digit c" and "\<not> is_digit d"
    and "xs @ d # r = ys @ d # r'"
  shows "xs = ys \<and> r = r'"
proof -
  have "takeWhile is_digit (xs @ d # r) = xs" "takeWhile is_digit (ys @ d # r') = ys"
    using assms(1-3) by (simp_all add: takeWhile_append2)
  with assms(4) have "xs = ys" by simp
  with assms(4) show ?thesis by simp
qed

lemma col_name_inj: "col_name k f = col_name k' f' \<Longrightarrow> k = k' \<and> f = f'"
proof -
  assume "col_name k f = col_name k' f'"
  then have "str_nat k @ CHR ''_'' # f = str_nat k' @ CHR ''_'' # f'"
    by (simp add: col_name_def)
  then have "str_nat k = str_nat k' \<and> f = f'"
    by (rule digits_prefix_unique [OF str_nat_digits str_nat_digits, rotated]) (simp add: is_digit_def)
  then show ?thesis by (simp add: str_nat_inj)
qed

lemma col_name_eq_iff [simp]: "col_name k f = col_name k' f' \<longleftrightarrow> k = k' \<and> f = f'"
  using col_name_inj by blast

lemma col_name_not_student [simp]:
  "col_name k f \<notin> set STUDENT_COLUMNS" "col_name k f \<notin> set student_cols"
  "col_name k f \<noteq> ''StudentId''" "''StudentId'' \<noteq> col_name k f"
  by (auto simp: col_name_def STUDENT_COLUMNS_def student_cols_def)

lemma set_student_cols: "set student_cols = set STUDENT_COLUMNS"
  by (auto simp: STUDENT_COLUMNS_def student_cols_def)

lemma new_col_name_pivot: "(v, f) \<in> set pivot_cols \<Longrightarrow> new_col_name (v, q) = col_name q f"
  by (auto simp: new_col_name_def pivot_cols_def)

lemma pivot_cols_functional:
  "(v, f) \<in> set pivot_cols \<Longrightarrow> (v', f) \<in> set pivot_cols \<Longrightarrow> v = v'"
  by (auto simp: pivot_cols_def)

lemma pivot_cols_functional2:
  "(v, f) \<in> set pivot_cols \<Longrightarrow> (v, f') \<in> set pivot_cols \<Longrightarrow> f = f'"
  by (auto simp: pivot_cols_def)

lemma map_snd_pivot_cols: "map snd pivot_cols = QUESTION_COLUMNS"
  by (simp add: pivot_cols_def QUESTION_COLUMNS_def)

lemma inj_new_col_name: "inj_on new_col_name (set (map fst pivot_cols) \<times> UNIV)"
proof (rule inj_onI)
  fix a b assume a: "a \<in> set (map fst pivot_cols) \<times> (UNIV :: nat set)"
    and b: "b \<in> set (map fst pivot_cols) \<times> (UNIV :: nat set)" and e: "new_col_name a = new_col_name b"
  obtain v q where av: "a = (v, q)" by (cases a)
  obtain v' q' where bv: "b = (v', q')" by (cases b)
  from a av obtain f where f: "(v, f) \<in> set pivot_cols" by auto
  from b bv obtain f' where f': "(v', f') \<in> set pivot_cols" by auto
  from e av bv f f' have "col_name q f = col_name q' f'" by (simp add: new_col_name_pivot)
  then have "q = q'" "f = f'" by simp_all
  with f f' have "v = v'" by (auto dest: pivot_cols_functional)
  with \<open>q = q'\<close> av bv show "a = b" by simp
qed

subsection \<open>The fill values\<close>

lemma endswith_rev: "endswith s suf \<longleftrightarrow> take (length suf) (rev s) = rev suf"
proof
  assume "endswith s suf"
  then have l: "length suf \<le> length s" and d: "drop (length s - length suf) s = suf"
    by (simp_all add: endswith_def)
  from d have "rev suf = rev (drop (length s - length suf) s)" by simp
  also have "\<dots> = take (length suf) (rev s)" using l by (simp add: rev_drop)
  finally show "take (length suf) (rev s) = rev suf" by simp
next
  assume t: "take (length suf) (rev s) = rev suf"
  then have "length (take (length suf) (rev s)) = length (rev suf)" by simp
  then have l: "length suf \<le> length s" by simp
  from t have "rev (take (length suf) (rev s)) = suf" by simp
  then have "drop (length s - length suf) s = suf" by (simp add: rev_take)
  with l show "endswith s suf" by (simp add: endswith_def)
qed

lemma fill_value_fixed: "list_all (\<lambda>c. fill_value c = None) STUDENT_COLUMNS"
  by (simp add: STUDENT_COLUMNS_def fill_value_def endswith_def)

lemma fill_value_student: "c \<in> set STUDENT_COLUMNS \<Longrightarrow> fill_value c = None"
  using fill_value_fixed by (simp add: list_all_iff)

lemma fill_value_col_name:
  "fill_value (col_name k ''StudentAnswer'') = Some (Str ''Not Answered'')"
  "fill_value (col_name k ''Score'') = Some (Num 0)"
  "fill_value (col_name k ''QuestionId'') = Some (Str ''N/A'')"
  "fill_value (col_name k ''Subject'') = Some (Str ''N/A'')"
  "fill_value (col_name k ''Level'') = Some (Str ''N/A'')"
  "fill_value (col_name k ''Type'') = Some (Str ''N/A'')"
  "fill_value (col_name k ''CorrectAnswer'') = Some (Str ''N/A'')"
  by (simp_all add: fill_value_def col_name_def endswith_rev)

lemma fill_value_question:
  "f \<in> set QUESTION_COLUMNS \<Longrightarrow> fill_value (col_name k f) \<noteq> None"
  by (auto simp: QUESTION_COLUMNS_def fill_value_col_name)

lemma fillna_not_NaN: "fill_value c \<noteq> None \<Longrightarrow> fillna c v \<noteq> NaN"
  by (auto simp: fillna_def fill_value_def split: if_splits)

section \<open>The claims\<close>

subsection \<open>Empty input\<close>

text \<open>
  C6: \<open>pivot_student_data\<close> on an empty input returns the empty table, and
  \<open>generate_excel\<close> on an empty table returns the minimal workbook: one sheet whose only
  cells are the line \<open>Contest ID: {contest_id}\<close> and the notice \<open>No data found for the
  specified filters.\<close>, and no summary sheet. Both functions are total here: the branch of
  the source has no raise.
\<close>

theorem empty_input_minimal_artifact:
  assumes "df_empty df"
  shows "pivot_student_data [] = empty_frame \<and>
         generate_excel now df contest_id contest_info =
           \<lparr>sheets = [\<lparr>sheet_name = ''Sheet'',
                       assigned = [(''A1'', ''Contest ID: '' @ str_int contest_id),
                                   (''A2'', ''No data found for the specified filters.'')],
                       startrow = 0, header = [], body = [], styled_header = [],
                       freeze_panes = None, widths = []\<rparr>],
            summary = None\<rparr>"
  using assms by (simp add: pivot_student_data_def generate_excel_def empty_workbook_def)

theorem empty_input_minimal_artifact_witness:
  "df_empty empty_frame \<and> pivot_student_data [] = empty_frame \<and>
   map assigned (sheets (generate_excel ''2024-03-05 01:02:03'' empty_frame 42 (None :: unit option)))
     = [[(''A1'', ''Contest ID: 42''), (''A2'', ''No data found for the specified filters.'')]]"
proof -
  have e: "df_empty empty_frame"
    by (simp add: empty_frame_def df_empty_def)
  have s: "str_int 42 = ''42''" by code_simp
  show ?thesis
    using e empty_input_minimal_artifact [OF e, of "''2024-03-05 01:02:03''" 42 "None :: unit option"] s
    by simp
qed

subsection \<open>The question count\<close>

text \<open>
  C7: on a table that is not empty, the question count that \<open>generate_excel\<close> writes into
  cell \<open>A3\<close> of the primary sheet and into the row \<open>Total Questions\<close> of the summary sheet
  is \<open>(len(df.columns) - 9) // 7\<close>; for nine student columns and twenty-one question
  columns it is 3.
\<close>

theorem question_count_formula:
  assumes "\<not> df_empty df"
  shows "assigned (hd (sheets (generate_excel now df contest_id contest_info))) ! 2 =
           (''A3'', ''Students: '' @ str_nat (length (rows df)) @ '' | Questions: ''
                    @ str_int ((int (length (columns df)) - 9) div 7))
         \<and> map_of (zip (metric (the (summary (generate_excel now df contest_id contest_info))))
                        (val (the (summary (generate_excel now df contest_id contest_info)))))
              ''Total Questions'' = Some (XInt ((int (length (columns df)) - 9) div 7))
         \<and> (length (columns df) = 9 + 21 \<longrightarrow> question_count df = 3)"
  using assms by (simp add: generate_excel_def question_count_def STUDENT_COLUMNS_def)

theorem question_count_formula_witness:
  "\<not> df_empty thirty \<and> length (columns thirty) = 30 \<and> question_count thirty = 3 \<and>
   assigned (hd (sheets (generate_excel ''2024-03-05 01:02:03'' thirty 42 (None :: unit option)))) ! 2
     = (''A3'', ''Students: 1 | Questions: 3'')"
proof -
  have e: "\<not> df_empty thirty"
    by (simp add: thirty_def df_empty_def STUDENT_COLUMNS_def)
  have l: "length (columns thirty) = 30"
    by (simp add: thirty_def STUDENT_COLUMNS_def QUESTION_COLUMNS_def)
  have r: "length (rows thirty) = 1" by (simp add: thirty_def)
  have s: "str_int 3 = ''3''" "str_nat 1 = ''1''" by code_simp+
  show ?thesis
    using e l question_count_formula [OF e, of "''2024-03-05 01:02:03''" 42 "None :: unit option"] r s
    by simp
qed

end
